theory Spec2Isabelle
  imports Complex_Main "HOL-Library.Multiset"
begin

section \<open>Values and texts of the expense bot\<close>

text \<open>
  The bot (\<^verbatim>\<open>src/bot.py\<close>) reads spreadsheet cells whose values are Python integers,
  floats, booleans, texts or \<^verbatim>\<open>None\<close>. A text is an Isabelle string whose characters are
  read as the Unicode code points 0 to 255. A float is its exact value together with the
  text that \<^verbatim>\<open>str\<close> prints for it (the shortest round-trip formatting of binary64 is not
  computed here, the printed text is carried as data), or one of the special values.
\<close>

datatype pyfloat = Finite rat string | PosInf | NegInf | NaN

datatype pyval = PNone | PBool bool | PInt int | PFloat pyfloat | PStr string

datatype error = ValueError | OverflowError

subsection \<open>Character classes\<close>

definition code :: "char \<Rightarrow> nat" where
  "code c = of_char c"

text \<open>\<^verbatim>\<open>str.isspace\<close>, used by \<^verbatim>\<open>strip()\<close> and by \<^verbatim>\<open>\s\<close>.\<close>

definition is_space :: "char \<Rightarrow> bool" where
  "is_space c = ((9 \<le> code c \<and> code c \<le> 13) \<or> (28 \<le> code c \<and> code c \<le> 32)
                 \<or> code c = 133 \<or> code c = 160)"

text \<open>The decimal digits: \<^verbatim>\<open>[0-9]\<close>, and \<^verbatim>\<open>\d\<close> below code point 256.\<close>

definition is_digit :: "char \<Rightarrow> bool" where
  "is_digit c = (48 \<le> code c \<and> code c \<le> 57)"

definition is_ascii_letter :: "char \<Rightarrow> bool" where
  "is_ascii_letter c = ((65 \<le> code c \<and> code c \<le> 90) \<or> (97 \<le> code c \<and> code c \<le> 122))"

text \<open>The letters of the upper half: everything from 192 on but the two operators.\<close>

definition is_latin1_letter :: "char \<Rightarrow> bool" where
  "is_latin1_letter c = (192 \<le> code c \<and> code c \<noteq> 215 \<and> code c \<noteq> 247)"


definition is_cased :: "char \<Rightarrow> bool" where
  "is_cased c = (is_ascii_letter c \<or> is_latin1_letter c \<or> code c \<in> {170, 181, 186})"

definition lower_char :: "char \<Rightarrow> char" where
  "lower_char c = (if (65 \<le> code c \<and> code c \<le> 90) \<or> (192 \<le> code c \<and> code c \<le> 222 \<and> code c \<noteq> 215)
                   then char_of (code c + 32) else c)"

text \<open>
  Title case of one character. Three letters (181, 223, 255) have a title-case form outside
  the code points 0 to 255 or of two letters; they are left as they are, so \<open>py_title\<close> is
  exact on every text without them.
\<close>

definition title_char :: "char \<Rightarrow> char" where
  "title_char c = (if (97 \<le> code c \<and> code c \<le> 122) \<or> (224 \<le> code c \<and> code c \<le> 254 \<and> code c \<noteq> 247)
                   then char_of (code c - 32) else c)"

subsection \<open>Built-in text operations\<close>

definition py_lower :: "string \<Rightarrow> string" where
  "py_lower s = map lower_char s"

text \<open>\<^verbatim>\<open>str.title()\<close>: a character after a cased one is lower-cased, any other is title-cased.\<close>

fun title_from :: "bool \<Rightarrow> string \<Rightarrow> string" where
  "title_from prev [] = []"
| "title_from prev (c # cs) =
     (if prev then lower_char c else title_char c) # title_from (is_cased c) cs"

definition py_title :: "string \<Rightarrow> string" where
  "py_title s = title_from False s"

definition py_strip :: "string \<Rightarrow> string" where
  "py_strip s = rev (dropWhile is_space (rev (dropWhile is_space s)))"

definition startswith :: "string \<Rightarrow> string \<Rightarrow> bool" where
  "startswith s p = (take (length p) s = p)"

definition digit_char :: "nat \<Rightarrow> char" where
  "digit_char d = char_of (48 + d)"

fun str_nat :: "nat \<Rightarrow> string" where
  "str_nat n = (if n < 10 then [digit_char n] else str_nat (n div 10) @ [digit_char (n mod 10)])"

declare str_nat.simps [simp del]

definition str_int :: "int \<Rightarrow> string" where
  "str_int i = (if i < 0 then CHR ''-'' # str_nat (nat (- i)) else str_nat (nat i))"

text \<open>\<^verbatim>\<open>str(value)\<close>.\<close>

fun py_str :: "pyval \<Rightarrow> string" where
  "py_str PNone = ''None''"
| "py_str (PBool b) = (if b then ''True'' else ''False'')"
| "py_str (PInt i) = str_int i"
| "py_str (PFloat (Finite q r)) = r"
| "py_str (PFloat PosInf) = ''inf''"
| "py_str (PFloat NegInf) = ''-inf''"
| "py_str (PFloat NaN) = ''nan''"
| "py_str (PStr s) = s"

text \<open>Truth value of a cell, as \<^verbatim>\<open>if not raw_date\<close> tests it.\<close>

fun truthy :: "pyval \<Rightarrow> bool" where
  "truthy PNone = False"
| "truthy (PBool b) = b"
| "truthy (PInt i) = (i \<noteq> 0)"
| "truthy (PFloat (Finite q r)) = (q \<noteq> 0)"
| "truthy (PFloat f) = True"
| "truthy (PStr s) = (s \<noteq> [])"

text \<open>The value of a run of decimal digits, most significant first.\<close>

definition digits_value :: "string \<Rightarrow> nat" where
  "digits_value ds = foldl (\<lambda>acc c. 10 * acc + (code c - 48)) 0 ds"

text \<open>
  \<^verbatim>\<open>int(s)\<close> on a text: an optional sign and at least one decimal digit, \<open>None\<close> where Python
  raises \<^verbatim>\<open>ValueError\<close>. Blanks around the number and underscores between digits, which
  \<^verbatim>\<open>int\<close> also accepts, never reach it here and are not part of the model; nor is the
  interpreter's limit on the number of digits.
\<close>

definition int_of_digits :: "string \<Rightarrow> int option" where
  "int_of_digits ds = (if ds \<noteq> [] \<and> list_all is_digit ds then Some (int (digits_value ds)) else None)"

fun py_int_str :: "string \<Rightarrow> int option" where
  "py_int_str [] = None"
| "py_int_str (c # cs) =
     (if c = CHR ''-'' then map_option uminus (int_of_digits cs)
      else if c = CHR ''+'' then int_of_digits cs
      else int_of_digits (c # cs))"

text \<open>\<^verbatim>\<open>int(value)\<close> on a float: truncation towards zero; the special values raise.\<close>

fun py_int_float :: "pyfloat \<Rightarrow> error + int" where
  "py_int_float (Finite q r) = Inr (if 0 \<le> q then \<lfloor>q\<rfloor> else \<lceil>q\<rceil>)"
| "py_int_float PosInf = Inl OverflowError"
| "py_int_float NegInf = Inl OverflowError"
| "py_int_float NaN = Inl ValueError"

section \<open>The amount normalizer\<close>

text \<open>
  \<^verbatim>\<open>to_int\<close>: numbers other than booleans are converted with \<^verbatim>\<open>int\<close>, outside any
  \<^verbatim>\<open>try\<close>; \<^verbatim>\<open>None\<close> is 0; anything else is printed, stripped, reduced to its digits and
  minus signs, and parsed, with 0 for an empty text, a lone minus and a failed parse.
\<close>

definition clean_amount :: "string \<Rightarrow> string" where
  "clean_amount s = filter (\<lambda>c. is_digit c \<or> c = CHR ''-'') (py_strip s)"

definition to_int_text :: "string \<Rightarrow> int" where
  "to_int_text t =
     (let s = clean_amount t in
      if s = [] \<or> s = ''-'' then 0
      else case py_int_str s of Some i \<Rightarrow> i | None \<Rightarrow> 0)"

fun to_int :: "pyval \<Rightarrow> error + int" where
  "to_int (PInt i) = Inr i"
| "to_int (PFloat f) = py_int_float f"
| "to_int PNone = Inr 0"
| "to_int v = Inr (to_int_text (py_str v))"

section \<open>The message parser\<close>










section \<open>The ledger and the clock\<close>

text \<open>
  A ledger row as \<^verbatim>\<open>get_all_records\<close> returns it: a dictionary from the header
  constants of the source to cell values. \<open>get r k d\<close> is \<^verbatim>\<open>record.get(k, d)\<close>, and
  \<^verbatim>\<open>record.get(k)\<close> is \<open>get r k PNone\<close>.
\<close>

datatype header = H_TANGGAL | H_WAKTU | H_KATEGORI | H_DESKRIPSI | H_JUMLAH | H_USER_ID | H_STATUS

type_synonym expense_record = "header \<rightharpoonup> pyval"

definition get :: "expense_record \<Rightarrow> header \<Rightarrow> pyval \<Rightarrow> pyval" where
  "get r k d = (case r k of Some v \<Rightarrow> v | None \<Rightarrow> d)"

text \<open>
  \<^verbatim>\<open>datetime.now()\<close> is a parameter of every operation that reads the clock. The formats
  are those of the source: \<^verbatim>\<open>%Y-%m\<close>, \<^verbatim>\<open>%Y-%m-%d\<close>, \<^verbatim>\<open>%H:%M:%S\<close> and \<^verbatim>\<open>%B %Y\<close> (English
  month names; a month outside 1 to 12, which no \<^verbatim>\<open>datetime\<close> holds, prints no name;
  years are printed with four digits at least).
\<close>

record datetime =
  year :: nat
  month :: nat
  day :: nat
  hour :: nat
  minute :: nat
  second :: nat

definition zero_pad :: "nat \<Rightarrow> nat \<Rightarrow> string" where
  "zero_pad w n = replicate (w - length (str_nat n)) CHR ''0'' @ str_nat n"

definition month_names :: "string list" where
  "month_names = [''January'', ''February'', ''March'', ''April'', ''May'', ''June'', ''July'',
     ''August'', ''September'', ''October'', ''November'', ''December'']"

definition strftime_Ym :: "datetime \<Rightarrow> string" where
  "strftime_Ym now = zero_pad 4 (year now) @ ''-'' @ zero_pad 2 (month now)"

definition strftime_Ymd :: "datetime \<Rightarrow> string" where
  "strftime_Ymd now =
     zero_pad 4 (year now) @ ''-'' @ zero_pad 2 (month now) @ ''-'' @ zero_pad 2 (day now)"

definition strftime_HMS :: "datetime \<Rightarrow> string" where
  "strftime_HMS now =
     zero_pad 2 (hour now) @ '':'' @ zero_pad 2 (minute now) @ '':'' @ zero_pad 2 (second now)"

definition strftime_BY :: "datetime \<Rightarrow> string" where
  "strftime_BY now =
     (if 1 \<le> month now \<and> month now \<le> 12 then month_names ! (month now - 1) else [])
     @ '' '' @ zero_pad 4 (year now)"

section \<open>The monthly aggregation\<close>

text \<open>
  \<^verbatim>\<open>monthly_data\<close> is a dictionary from category to amount, kept as an association list in
  insertion order. \<open>dict_add k a d\<close> is \<^verbatim>\<open>d[k] += a\<close> for a key that \<open>d\<close> holds (for a
  missing key Python raises, which the loop below swallows, leaving \<open>d\<close> as it is);
  \<open>dict_item d k\<close> is \<^verbatim>\<open>d[k]\<close>, \<open>None\<close> where Python raises \<^verbatim>\<open>KeyError\<close>.
\<close>

type_synonym totals = "(string \<times> int) list"

definition categories :: "string list" where
  "categories = [''makan'', ''transport'', ''belanja'', ''hiburan'', ''kesehatan'', ''lainnya'']"

definition dict_has :: "string \<Rightarrow> totals \<Rightarrow> bool" where
  "dict_has k d = (k \<in> set (map fst d))"

definition dict_add :: "string \<Rightarrow> int \<Rightarrow> totals \<Rightarrow> totals" where
  "dict_add k a d = map (\<lambda>(c, v). if c = k then (c, v + a) else (c, v)) d"

definition dict_item :: "totals \<Rightarrow> string \<Rightarrow> int option" where
  "dict_item d k = map_of d k"

text \<open>
  The body of the loop over the ledger in \<^verbatim>\<open>update_monthly_summary\<close>. A record whose
  amount makes \<^verbatim>\<open>to_int\<close> raise is skipped by the \<^verbatim>\<open>except Exception: continue\<close>.
\<close>

definition monthly_step :: "string \<Rightarrow> totals \<Rightarrow> expense_record \<Rightarrow> totals" where
  "monthly_step current_month_str monthly_data r =
     (let raw_date = get r H_TANGGAL PNone in
      if \<not> truthy raw_date then monthly_data
      else if startswith (py_str raw_date) current_month_str then
        (let category = py_lower (py_str (get r H_KATEGORI (PStr [])))
         in case to_int (get r H_JUMLAH PNone) of
              Inl e \<Rightarrow> monthly_data
            | Inr amount \<Rightarrow>
                if dict_has category monthly_data then dict_add category amount monthly_data
                else dict_add ''lainnya'' amount monthly_data)
      else monthly_data)"

definition monthly_aggregate :: "string \<Rightarrow> expense_record list \<Rightarrow> totals" where
  "monthly_aggregate current_month_str records =
     foldl (monthly_step current_month_str) (map (\<lambda>c. (c, 0)) categories) records"

text \<open>\<^verbatim>\<open>total = sum(monthly_data.values())\<close>.\<close>

definition total_of :: "totals \<Rightarrow> int" where
  "total_of monthly_data = sum_list (map snd monthly_data)"

definition row_data :: "string \<Rightarrow> totals \<Rightarrow> int \<Rightarrow> pyval list option" where
  "row_data current_month_name monthly_data grand_total =
     (case dict_item monthly_data ''makan'' of None \<Rightarrow> None | Some makan \<Rightarrow>
      case dict_item monthly_data ''transport'' of None \<Rightarrow> None | Some transport \<Rightarrow>
      case dict_item monthly_data ''belanja'' of None \<Rightarrow> None | Some belanja \<Rightarrow>
      case dict_item monthly_data ''hiburan'' of None \<Rightarrow> None | Some hiburan \<Rightarrow>
      case dict_item monthly_data ''kesehatan'' of None \<Rightarrow> None | Some kesehatan \<Rightarrow>
      case dict_item monthly_data ''lainnya'' of None \<Rightarrow> None | Some lainnya \<Rightarrow>
        Some [PStr current_month_name, PInt makan, PInt transport, PInt belanja,
              PInt hiburan, PInt kesehatan, PInt lainnya, PInt grand_total])"

section \<open>The summary sheet and its upsert\<close>

text \<open>
  The summary sheet is the list of its data rows (sheet rows 4, 5, ... below the header in
  row 3), each the list of its cells from column A on. The header row is the one
  \<^verbatim>\<open>setup_summary_worksheet_format\<close> writes, so that the key of the period label names
  column A; a row without cells reads as blank there. \<^verbatim>\<open>update_cell\<close> writes one cell,
  padding with blank cells and rows as the grid does, and \<^verbatim>\<open>append_row\<close> adds a row below
  the last one.
\<close>

definition SUMMARY_HEADER_ROW :: nat where
  "SUMMARY_HEADER_ROW = 3"

type_synonym summary_rows = "pyval list list"

definition label_cell :: "pyval list \<Rightarrow> pyval" where
  "label_cell row = (case row of [] \<Rightarrow> PStr [] | c # cs \<Rightarrow> c)"

text \<open>The scan for the row of the current month: the first match ends it.\<close>

fun find_existing_row :: "string \<Rightarrow> summary_rows \<Rightarrow> nat \<Rightarrow> nat option" where
  "find_existing_row current_month_name [] i = None"
| "find_existing_row current_month_name (rec # recs) i =
     (if label_cell rec = PStr current_month_name then Some (i + SUMMARY_HEADER_ROW + 1)
      else find_existing_row current_month_name recs (Suc i))"

definition put_cell :: "nat \<Rightarrow> pyval \<Rightarrow> pyval list \<Rightarrow> pyval list" where
  "put_cell k v row = (row @ replicate (Suc k - length row) (PStr []))[k := v]"

definition update_cell :: "nat \<Rightarrow> nat \<Rightarrow> pyval \<Rightarrow> summary_rows \<Rightarrow> summary_rows" where
  "update_cell r col v rows =
     (if r \<le> SUMMARY_HEADER_ROW \<or> col = 0 then rows
      else let i = r - SUMMARY_HEADER_ROW - 1;
               rows' = rows @ replicate (Suc i - length rows) []
           in rows'[i := put_cell (col - 1) v (rows' ! i)])"

text \<open>\<^verbatim>\<open>for col, value in enumerate(row_data, start=1): update_cell(existing_row, col, value)\<close>.\<close>

fun update_cells :: "nat \<Rightarrow> nat \<Rightarrow> pyval list \<Rightarrow> summary_rows \<Rightarrow> summary_rows" where
  "update_cells r col [] rows = rows"
| "update_cells r col (v # vs) rows = update_cells r (Suc col) vs (update_cell r col v rows)"

definition append_row :: "pyval list \<Rightarrow> summary_rows \<Rightarrow> summary_rows" where
  "append_row row rows = rows @ [row]"

text \<open>
  The upsert of \<^verbatim>\<open>update_monthly_summary\<close>; \<^verbatim>\<open>if existing_row\<close> tests the row number for
  being set and not 0.
\<close>

definition upsert_summary :: "string \<Rightarrow> pyval list \<Rightarrow> summary_rows \<Rightarrow> summary_rows" where
  "upsert_summary current_month_name row summary_records =
     (case find_existing_row current_month_name summary_records 0 of
        Some existing_row \<Rightarrow>
          if existing_row \<noteq> 0 then update_cells existing_row 1 row summary_records
          else append_row row summary_records
      | None \<Rightarrow> append_row row summary_records)"

record sheets =
  worksheet :: "expense_record list"
  summary_worksheet :: summary_rows

text \<open>
  \<^verbatim>\<open>update_monthly_summary\<close>. A failed lookup in \<^verbatim>\<open>monthly_data\<close> would end in the outer
  \<^verbatim>\<open>except\<close>, which writes nothing. Cell formats are not part of the model.
\<close>

definition update_monthly_summary :: "datetime \<Rightarrow> sheets \<Rightarrow> sheets" where
  "update_monthly_summary now st =
     (let current_month_str = strftime_Ym now;
          current_month_name = strftime_BY now;
          monthly_data = monthly_aggregate current_month_str (worksheet st);
          grand_total = total_of monthly_data
      in case row_data current_month_name monthly_data grand_total of
           None \<Rightarrow> st
         | Some row \<Rightarrow>
             st\<lparr>summary_worksheet := upsert_summary current_month_name row (summary_worksheet st)\<rparr>)"

text \<open>
  \<^verbatim>\<open>add_expense_to_sheet\<close>: the row it appends, read back as a record, and the summary
  update that follows. The status text is written without its leading symbol, which is
  outside the code points of the model.
\<close>

definition status_ok :: string where
  "status_ok = ''Berhasil''"

definition new_record :: "datetime \<Rightarrow> pyval \<Rightarrow> string \<Rightarrow> int \<Rightarrow> string \<Rightarrow> expense_record" where
  "new_record now user_id kategori jumlah deskripsi =
     [H_TANGGAL \<mapsto> PStr (strftime_Ymd now), H_WAKTU \<mapsto> PStr (strftime_HMS now),
      H_KATEGORI \<mapsto> PStr (py_title kategori), H_DESKRIPSI \<mapsto> PStr deskripsi,
      H_JUMLAH \<mapsto> PInt jumlah, H_USER_ID \<mapsto> user_id, H_STATUS \<mapsto> PStr status_ok]"

definition add_expense_to_sheet ::
  "datetime \<Rightarrow> pyval \<Rightarrow> string \<Rightarrow> int \<Rightarrow> string \<Rightarrow> sheets \<Rightarrow> bool \<times> sheets" where
  "add_expense_to_sheet now user_id kategori jumlah deskripsi st =
     (let st' = st\<lparr>worksheet := worksheet st @ [new_record now user_id kategori jumlah deskripsi]\<rparr>
      in (True, update_monthly_summary now st'))"

section \<open>The daily and the monthly view\<close>












section \<open>Notions used in the statements\<close>

text \<open>
  What one ledger record adds to the monthly aggregate: the bucket and the amount, or
  nothing when the record is skipped. \<open>credit\<close> adds it to the totals.
\<close>

definition counted :: "string \<Rightarrow> expense_record \<Rightarrow> (string \<times> int) option" where
  "counted current_month_str r =
     (let raw_date = get r H_TANGGAL PNone in
      if truthy raw_date \<and> startswith (py_str raw_date) current_month_str then
        (case to_int (get r H_JUMLAH PNone) of
           Inl e \<Rightarrow> None
         | Inr amount \<Rightarrow>
             (let category = py_lower (py_str (get r H_KATEGORI (PStr [])))
              in Some (if category \<in> set categories then category else ''lainnya'', amount)))
      else None)"

definition credit :: "(string \<times> int) option \<Rightarrow> totals \<Rightarrow> totals" where
  "credit e d = (case e of None \<Rightarrow> d | Some (c, a) \<Rightarrow> dict_add c a d)"

text \<open>
  Whether a summary row carries the period label, and the position of the first such row.
\<close>

definition first_match :: "string \<Rightarrow> summary_rows \<Rightarrow> nat" where
  "first_match name rows = length (takeWhile (\<lambda>r. label_cell r \<noteq> PStr name) rows)"

definition has_label :: "string \<Rightarrow> summary_rows \<Rightarrow> bool" where
  "has_label name rows = (PStr name \<in> set (map label_cell rows))"

text \<open>
  The example of the specification: on 3 August 2025 user 7 sends two meals of 25000 and a
  ride of 10000.
\<close>

definition example_now :: datetime where
  "example_now = \<lparr>year = 2025, month = 8, day = 3, hour = 9, minute = 5, second = 0\<rparr>"

definition example_sheets :: sheets where
  "example_sheets =
     snd (add_expense_to_sheet example_now (PInt 7) ''transport'' 10000 ''ojek''
       (snd (add_expense_to_sheet example_now (PInt 7) ''makan'' 25000 ''nasi goreng''
         (snd (add_expense_to_sheet example_now (PInt 7) ''makan'' 25000 ''nasi goreng''
           \<lparr>worksheet = [], summary_worksheet = []\<rparr>)))))"

section \<open>Properties of the amount normalizer\<close>

lemma clean_amount_no_digit:
  assumes "\<not> (\<exists>c \<in> set t. is_digit c)"
  shows "set (clean_amount t) \<subseteq> {CHR ''-''}"
proof -
  have "set (py_strip t) \<subseteq> set t"
    by (auto simp: py_strip_def dest!: set_dropWhileD)
  with assms show ?thesis
    by (auto simp: clean_amount_def)
qed

lemma int_of_digits_minus: "set ds \<subseteq> {CHR ''-''} \<Longrightarrow> int_of_digits ds = None"
  by (cases ds) (auto simp: int_of_digits_def is_digit_def code_def)

lemma to_int_text_no_digit:
  assumes "\<not> (\<exists>c \<in> set t. is_digit c)"
  shows "to_int_text t = 0"
proof -
  let ?s = "clean_amount t"
  have sub: "set ?s \<subseteq> {CHR ''-''}"
    using assms by (rule clean_amount_no_digit)
  show ?thesis
  proof (cases ?s)
    case Nil
    then show ?thesis by (simp add: to_int_text_def)
  next
    case (Cons c cs)
    with sub have c: "c = CHR ''-''" and cs: "set cs \<subseteq> {CHR ''-''}" by auto
    from cs have "int_of_digits cs = None" by (rule int_of_digits_minus)
    with Cons c show ?thesis by (simp add: to_int_text_def Let_def)
  qed
qed

text \<open>
  C10. Booleans are kept out of the numeric branch of \<^verbatim>\<open>to_int\<close>: \<^verbatim>\<open>True\<close> and \<^verbatim>\<open>False\<close>
  are printed as texts without a digit, and both give 0.
\<close>

theorem to_int_bool:
  "to_int (PBool True) = Inr 0 \<and> to_int (PBool False) = Inr 0"
  by (simp add: to_int_text_no_digit is_digit_def code_def)

text \<open>
  C5, at the input where it fails. A float that is not a number reaches \<^verbatim>\<open>int(value)\<close>,
  which raises outside the \<^verbatim>\<open>try\<close>; an infinite one raises as well.
\<close>

theorem to_int_raises_on_nan:
  "to_int (PFloat NaN) = Inl ValueError \<and> to_int (PFloat PosInf) = Inl OverflowError"
  by simp

text \<open>The rest of C5 holds: every other value gives an integer, and 0 without a digit.\<close>

lemma to_int_total_elsewhere:
  "v \<notin> {PFloat NaN, PFloat PosInf, PFloat NegInf} \<Longrightarrow> \<exists>i. to_int v = Inr i"
proof (cases v)
  case (PFloat f)
  assume "v \<notin> {PFloat NaN, PFloat PosInf, PFloat NegInf}"
  with PFloat show ?thesis by (cases f) auto
qed auto

lemma to_int_zero_without_digits:
  "\<not> (\<exists>c \<in> set s. is_digit c) \<Longrightarrow> to_int (PStr s) = Inr 0"
  by (simp add: to_int_text_no_digit)

theorem to_int_bool_witness: "to_int (PBool True) = Inr 0"
  using to_int_bool by simp

theorem to_int_raises_on_nan_witness: "to_int (PFloat NaN) = Inl ValueError"
  using to_int_raises_on_nan by simp

section \<open>Properties of the message parser\<close>






















section \<open>Properties of the monthly aggregation\<close>

lemma keys_dict_add: "map fst (dict_add k a d) = map fst d"
  by (induction d) (auto simp: dict_add_def)

lemma keys_credit: "map fst (credit e d) = map fst d"
  by (auto simp: credit_def keys_dict_add split: option.splits)

lemma monthly_step_credit:
  assumes "map fst d = categories"
  shows "monthly_step m d r = credit (counted m r) d"
  using assms
  by (auto simp: monthly_step_def counted_def credit_def dict_has_def Let_def split: sum.splits)

lemma dict_add_commute: "dict_add k a (dict_add k' a' d) = dict_add k' a' (dict_add k a d)"
  by (induction d) (auto simp: dict_add_def)

lemma credit_commute: "credit e (credit e' d) = credit e' (credit e d)"
  by (auto simp: credit_def dict_add_commute split: option.splits)

lemma foldl_monthly_step:
  assumes "map fst d = categories"
  shows "foldl (monthly_step m) d rs = fold (\<lambda>r. credit (counted m r)) rs d"
  using assms
proof (induction rs arbitrary: d)
  case Nil
  then show ?case by simp
next
  case (Cons r rs)
  have "map fst (credit (counted m r) d) = categories"
    using Cons.prems by (simp add: keys_credit)
  from Cons.IH [OF this] Cons.prems show ?case
    by (simp add: monthly_step_credit)
qed

lemma monthly_aggregate_fold:
  "monthly_aggregate m rs = fold (\<lambda>r. credit (counted m r)) rs (map (\<lambda>c. (c, 0)) categories)"
  unfolding monthly_aggregate_def by (rule foldl_monthly_step) (simp add: comp_def)

lemma keys_fold_credit: "map fst (fold (\<lambda>r. credit (counted m r)) rs d) = map fst d"
  by (induction rs arbitrary: d) (simp_all add: keys_credit)

lemma keys_monthly_aggregate: "map fst (monthly_aggregate m rs) = categories"
  by (simp add: monthly_aggregate_fold keys_fold_credit comp_def)


lemma six_keys:
  assumes "map fst d = categories"
  shows "\<exists>a b c e f g. d = [(''makan'', a), (''transport'', b), (''belanja'', c),
           (''hiburan'', e), (''kesehatan'', f), (''lainnya'', g)]"
  using assms unfolding categories_def by (auto simp: map_eq_Cons_conv)

subsection \<open>The example ledger, evaluated\<close>

lemmas char_eval = code_def char_of_def bit_Suc_0_iff

lemma example_clock:
  "strftime_Ymd example_now = ''2025-08-03''"
  "strftime_Ym example_now = ''2025-08''"
  "strftime_HMS example_now = ''09:05:00''"
  "strftime_BY example_now = ''August 2025''"
  by (simp_all add: strftime_Ymd_def strftime_Ym_def strftime_HMS_def strftime_BY_def
      example_now_def zero_pad_def str_nat.simps digit_char_def month_names_def char_eval)

lemma example_titles:
  "py_title ''makan'' = ''Makan''" "py_title ''transport'' = ''Transport''"
  "py_title ''hobi'' = ''Hobi''"
  by (simp_all add: py_title_def title_char_def lower_char_def is_cased_def is_ascii_letter_def
      is_latin1_letter_def char_eval)

lemma example_lowers:
  "py_lower ''Makan'' = ''makan''" "py_lower ''Transport'' = ''transport''"
  "py_lower ''Hobi'' = ''hobi''"
  by (simp_all add: py_lower_def lower_char_def char_eval)

lemma example_records:
  "new_record example_now uid ''makan'' a d =
     [H_TANGGAL \<mapsto> PStr ''2025-08-03'', H_WAKTU \<mapsto> PStr ''09:05:00'',
      H_KATEGORI \<mapsto> PStr ''Makan'', H_DESKRIPSI \<mapsto> PStr d,
      H_JUMLAH \<mapsto> PInt a, H_USER_ID \<mapsto> uid, H_STATUS \<mapsto> PStr status_ok]"
  "new_record example_now uid ''transport'' a d =
     [H_TANGGAL \<mapsto> PStr ''2025-08-03'', H_WAKTU \<mapsto> PStr ''09:05:00'',
      H_KATEGORI \<mapsto> PStr ''Transport'', H_DESKRIPSI \<mapsto> PStr d,
      H_JUMLAH \<mapsto> PInt a, H_USER_ID \<mapsto> uid, H_STATUS \<mapsto> PStr status_ok]"
  "new_record example_now uid ''hobi'' a d =
     [H_TANGGAL \<mapsto> PStr ''2025-08-03'', H_WAKTU \<mapsto> PStr ''09:05:00'',
      H_KATEGORI \<mapsto> PStr ''Hobi'', H_DESKRIPSI \<mapsto> PStr d,
      H_JUMLAH \<mapsto> PInt a, H_USER_ID \<mapsto> uid, H_STATUS \<mapsto> PStr status_ok]"
  by (simp_all add: new_record_def example_clock example_titles)

lemma example_counted:
  "counted ''2025-08'' (new_record example_now uid ''makan'' a d) = Some (''makan'', a)"
  "counted ''2025-08'' (new_record example_now uid ''transport'' a d) = Some (''transport'', a)"
  "counted ''2025-08'' (new_record example_now uid ''hobi'' a d) = Some (''lainnya'', a)"
  by (simp_all add: counted_def example_records get_def startswith_def example_lowers categories_def)

lemma example_worksheet:
  "worksheet example_sheets =
     [new_record example_now (PInt 7) ''makan'' 25000 ''nasi goreng'',
      new_record example_now (PInt 7) ''makan'' 25000 ''nasi goreng'',
      new_record example_now (PInt 7) ''transport'' 10000 ''ojek'']"
  by (simp add: example_sheets_def add_expense_to_sheet_def update_monthly_summary_def Let_def
      split: option.splits)

lemma example_aggregate:
  "monthly_aggregate ''2025-08'' (worksheet example_sheets) =
     [(''makan'', 50000), (''transport'', 10000), (''belanja'', 0), (''hiburan'', 0),
      (''kesehatan'', 0), (''lainnya'', 0)]"
  by (simp add: example_worksheet monthly_aggregate_fold example_counted credit_def dict_add_def
      categories_def)

subsection \<open>The total and the six categories\<close>

text \<open>
  C4. For every ledger and every month filter the aggregate holds exactly the six category
  keys, in their fixed order; the grand total is the sum of the six category totals, in the
  aggregate and in the row that is persisted; and on an empty ledger every total is 0.
\<close>

theorem monthly_total_is_sum:
  "(\<exists>makan transport belanja hiburan kesehatan lainnya.
      monthly_aggregate m records =
        [(''makan'', makan), (''transport'', transport), (''belanja'', belanja),
         (''hiburan'', hiburan), (''kesehatan'', kesehatan), (''lainnya'', lainnya)]
      \<and> total_of (monthly_aggregate m records)
          = makan + transport + belanja + hiburan + kesehatan + lainnya
      \<and> row_data label (monthly_aggregate m records) (total_of (monthly_aggregate m records))
          = Some [PStr label, PInt makan, PInt transport, PInt belanja, PInt hiburan,
                  PInt kesehatan, PInt lainnya,
                  PInt (makan + transport + belanja + hiburan + kesehatan + lainnya)])
   \<and> monthly_aggregate m [] = map (\<lambda>c. (c, 0)) categories"
proof
  from six_keys [OF keys_monthly_aggregate] obtain a b c e f g
    where d: "monthly_aggregate m records = [(''makan'', a), (''transport'', b), (''belanja'', c),
           (''hiburan'', e), (''kesehatan'', f), (''lainnya'', g)]"
    by blast
  have t: "total_of (monthly_aggregate m records) = a + b + c + e + f + g"
    by (simp add: d total_of_def)
  have r: "row_data label (monthly_aggregate m records) (a + b + c + e + f + g)
      = Some [PStr label, PInt a, PInt b, PInt c, PInt e, PInt f, PInt g, PInt (a + b + c + e + f + g)]"
    by (simp add: d row_data_def dict_item_def)
  from d t r show "\<exists>makan transport belanja hiburan kesehatan lainnya.
      monthly_aggregate m records =
        [(''makan'', makan), (''transport'', transport), (''belanja'', belanja),
         (''hiburan'', hiburan), (''kesehatan'', kesehatan), (''lainnya'', lainnya)]
      \<and> total_of (monthly_aggregate m records)
          = makan + transport + belanja + hiburan + kesehatan + lainnya
      \<and> row_data label (monthly_aggregate m records) (total_of (monthly_aggregate m records))
          = Some [PStr label, PInt makan, PInt transport, PInt belanja, PInt hiburan,
                  PInt kesehatan, PInt lainnya,
                  PInt (makan + transport + belanja + hiburan + kesehatan + lainnya)]"
    by (metis (no_types))
next
  show "monthly_aggregate m [] = map (\<lambda>c. (c, 0)) categories"
    by (simp add: monthly_aggregate_def)
qed

theorem monthly_total_is_sum_witness:
  "monthly_aggregate ''2025-08'' (worksheet example_sheets) =
     [(''makan'', 50000), (''transport'', 10000), (''belanja'', 0), (''hiburan'', 0),
      (''kesehatan'', 0), (''lainnya'', 0)]
   \<and> total_of (monthly_aggregate ''2025-08'' (worksheet example_sheets)) = 60000
   \<and> row_data ''August 2025'' (monthly_aggregate ''2025-08'' (worksheet example_sheets))
        (total_of (monthly_aggregate ''2025-08'' (worksheet example_sheets)))
      = Some [PStr ''August 2025'', PInt 50000, PInt 10000, PInt 0, PInt 0, PInt 0, PInt 0, PInt 60000]"
  using monthly_total_is_sum [of "''2025-08''" "worksheet example_sheets" "''August 2025''"]
  by (auto simp: example_aggregate)

subsection \<open>Independence of the order of the records\<close>

text \<open>
  C6. The monthly aggregate is a function of the multiset of the records: two ledgers that
  are permutations of each other give the same category totals and the same grand total.
\<close>

theorem monthly_aggregate_permutation:
  assumes "mset records' = mset records"
  shows "monthly_aggregate m records' = monthly_aggregate m records
     \<and> total_of (monthly_aggregate m records') = total_of (monthly_aggregate m records)"
proof -
  have "fold (\<lambda>r. credit (counted m r)) records' = fold (\<lambda>r. credit (counted m r)) records"
    using assms by (intro fold_multiset_equiv) (auto simp: credit_commute fun_eq_iff)
  then show ?thesis by (simp add: monthly_aggregate_fold)
qed

theorem monthly_aggregate_permutation_witness:
  "mset [new_record example_now (PInt 7) ''transport'' 10000 ''ojek'',
         new_record example_now (PInt 7) ''makan'' 25000 ''nasi goreng'']
     = mset [new_record example_now (PInt 7) ''makan'' 25000 ''nasi goreng'',
             new_record example_now (PInt 7) ''transport'' 10000 ''ojek'']
   \<and> monthly_aggregate ''2025-08''
        [new_record example_now (PInt 7) ''transport'' 10000 ''ojek'',
         new_record example_now (PInt 7) ''makan'' 25000 ''nasi goreng'']
     = monthly_aggregate ''2025-08''
        [new_record example_now (PInt 7) ''makan'' 25000 ''nasi goreng'',
         new_record example_now (PInt 7) ''transport'' 10000 ''ojek'']"
proof -
  have m: "mset [new_record example_now (PInt 7) ''transport'' 10000 ''ojek'',
         new_record example_now (PInt 7) ''makan'' 25000 ''nasi goreng'']
     = mset [new_record example_now (PInt 7) ''makan'' 25000 ''nasi goreng'',
             new_record example_now (PInt 7) ''transport'' 10000 ''ojek'']"
    by (simp add: add_mset_commute)
  from monthly_aggregate_permutation [OF m, of "''2025-08''"] m show ?thesis by simp
qed

section \<open>Properties of storing an expense\<close>





















lemma row_data_Some:
  assumes "map fst d = categories"
  shows "\<exists>cells. row_data label d t = Some (PStr label # cells)"
proof -
  from six_keys [OF assms] obtain v1 v2 v3 v4 v5 v6
    where "d = [(''makan'', v1), (''transport'', v2), (''belanja'', v3),
           (''hiburan'', v4), (''kesehatan'', v5), (''lainnya'', v6)]"
    by blast
  then show ?thesis by (simp add: row_data_def dict_item_def)
qed












section \<open>Properties of the summary upsert\<close>

lemma find_existing_row_None:
  "\<not> has_label name rows \<Longrightarrow> find_existing_row name rows i = None"
  by (induction rows arbitrary: i) (auto simp: has_label_def)

lemma find_existing_row_Some:
  "has_label name rows \<Longrightarrow>
     find_existing_row name rows i = Some (i + first_match name rows + SUMMARY_HEADER_ROW + 1)"
  by (induction rows arbitrary: i) (auto simp: has_label_def first_match_def)

lemma first_match_less: "has_label name rows \<Longrightarrow> first_match name rows < length rows"
  by (induction rows) (auto simp: has_label_def first_match_def)

lemma first_match_label:
  "has_label name rows \<Longrightarrow> label_cell (rows ! first_match name rows) = PStr name"
  unfolding has_label_def first_match_def
  using nth_length_takeWhile [of "\<lambda>r. label_cell r \<noteq> PStr name" rows]
    first_match_less [unfolded has_label_def first_match_def, of name rows]
  by auto

lemma put_cell_at:
  assumes "length pre = k"
  shows "put_cell k v (pre @ rest) = pre @ v # drop 1 rest"
  using assms by (cases rest) (auto simp: put_cell_def list_update_append)

lemma update_cell_at:
  assumes "j < length rows" "length pre = k" "rows ! j = pre @ rest"
  shows "update_cell (j + SUMMARY_HEADER_ROW + 1) (Suc k) v rows = rows[j := pre @ v # drop 1 rest]"
  using assms by (simp add: update_cell_def SUMMARY_HEADER_ROW_def put_cell_at)

lemma update_cells_at:
  assumes "j < length rows" "length pre = k" "rows ! j = pre @ rest"
  shows "update_cells (j + SUMMARY_HEADER_ROW + 1) (Suc k) vs rows
           = rows[j := pre @ vs @ drop (length vs) rest]"
  using assms
proof (induction vs arbitrary: rows pre k rest)
  case Nil
  then have "rows[j := pre @ rest] = rows" by (metis list_update_id)
  then show ?case by simp
next
  case (Cons v vs)
  let ?r = "j + SUMMARY_HEADER_ROW + 1"
  let ?rows = "rows[j := pre @ v # drop 1 rest]"
  have step: "update_cell ?r (Suc k) v rows = ?rows"
    using Cons.prems by (rule update_cell_at)
  have "update_cells ?r (Suc k) (v # vs) rows = update_cells ?r (Suc (Suc k)) vs ?rows"
    by (simp only: update_cells.simps step)
  also have "\<dots> = ?rows[j := (pre @ [v]) @ vs @ drop (length vs) (drop 1 rest)]"
    using Cons.prems by (intro Cons.IH) simp_all
  also have "\<dots> = rows[j := pre @ (v # vs) @ drop (length (v # vs)) rest]"
    by simp
  finally show ?case .
qed

lemma upsert_found:
  assumes "has_label name rows"
  shows "upsert_summary name row rows
           = rows[first_match name rows := row @ drop (length row) (rows ! first_match name rows)]"
proof -
  let ?j = "first_match name rows"
  have j: "?j < length rows" using assms by (rule first_match_less)
  have "update_cells (?j + SUMMARY_HEADER_ROW + 1) (Suc 0) row rows
          = rows[?j := [] @ row @ drop (length row) (rows ! ?j)]"
    using j by (intro update_cells_at) simp_all
  then show ?thesis
    using find_existing_row_Some [OF assms, of 0]
    by (simp add: upsert_summary_def SUMMARY_HEADER_ROW_def)
qed

lemma upsert_missing:
  assumes "\<not> has_label name rows"
  shows "upsert_summary name row rows = rows @ [row]"
  using find_existing_row_None [OF assms, of 0]
  by (simp add: upsert_summary_def append_row_def)

lemma has_label_upsert:
  "has_label name (upsert_summary name (PStr name # cells) rows)"
proof (cases "has_label name rows")
  case True
  let ?j = "first_match name rows"
  have "?j < length rows" using True by (rule first_match_less)
  then have "(rows[?j := (PStr name # cells) @ drop (length (PStr name # cells)) (rows ! ?j)]) ! ?j
      \<in> set (rows[?j := (PStr name # cells) @ drop (length (PStr name # cells)) (rows ! ?j)])"
    by (intro nth_mem) simp
  then show ?thesis
    using \<open>?j < length rows\<close>
    unfolding upsert_found [OF True] has_label_def
    by (auto simp: label_cell_def intro!: image_eqI)
next
  case False
  then show ?thesis
    by (simp add: upsert_missing has_label_def label_cell_def)
qed

lemma labels_upsert_found:
  assumes "has_label name rows"
  shows "map label_cell (upsert_summary name (PStr name # cells) rows) = map label_cell rows"
proof -
  let ?j = "first_match name rows"
  have j: "?j < length rows" using assms by (rule first_match_less)
  have "map label_cell (rows[?j := (PStr name # cells) @ drop (length (PStr name # cells)) (rows ! ?j)])
      = (map label_cell rows)[?j := PStr name]"
    by (simp add: map_update label_cell_def)
  also have "\<dots> = map label_cell rows"
    using first_match_label [OF assms] j by (simp add: list_update_same_conv)
  finally show ?thesis by (simp only: upsert_found [OF assms])
qed

lemma first_match_labels:
  "first_match name xs = length (takeWhile (\<lambda>l. l \<noteq> PStr name) (map label_cell xs))"
  by (induction xs) (simp_all add: first_match_def)

lemma first_match_upsert:
  assumes "has_label name rows"
  shows "first_match name (upsert_summary name (PStr name # cells) rows) = first_match name rows"
  unfolding first_match_labels labels_upsert_found [OF assms] ..

lemma upsert_idem:
  "upsert_summary name (PStr name # cells) (upsert_summary name (PStr name # cells) rows)
     = upsert_summary name (PStr name # cells) rows"
proof -
  let ?row = "PStr name # cells"
  let ?u = "upsert_summary name ?row rows"
  have hu: "has_label name ?u" by (rule has_label_upsert)
  show ?thesis
  proof (cases "has_label name rows")
    case True
    let ?j = "first_match name rows"
    have j: "?j < length rows" using True by (rule first_match_less)
    have fm: "first_match name ?u = ?j" using True by (rule first_match_upsert)
    have u: "?u = rows[?j := ?row @ drop (length ?row) (rows ! ?j)]"
      using True by (rule upsert_found)
    have "upsert_summary name ?row ?u = ?u[?j := ?row @ drop (length ?row) (?u ! ?j)]"
      using upsert_found [OF hu, of ?row] fm by simp
    also have "?u ! ?j = ?row @ drop (length ?row) (rows ! ?j)"
      using j by (simp add: u)
    also have "?u[?j := ?row @ drop (length ?row) (?row @ drop (length ?row) (rows ! ?j))] = ?u"
      using j by (simp add: u)
    finally show ?thesis .
  next
    case False
    then have u: "?u = rows @ [?row]" by (rule upsert_missing)
    have all: "label_cell r \<noteq> PStr name" if "r \<in> set rows" for r
      using False that by (force simp: has_label_def)
    have "takeWhile (\<lambda>r. label_cell r \<noteq> PStr name) (rows @ [?row])
        = rows @ takeWhile (\<lambda>r. label_cell r \<noteq> PStr name) [?row]"
      by (rule takeWhile_append2) (rule all)
    then have fm: "first_match name (rows @ [?row]) = length rows"
      by (simp add: first_match_def label_cell_def)
    have "upsert_summary name ?row ?u = ?u[first_match name ?u := ?row @ drop (length ?row) (?u ! first_match name ?u)]"
      using upsert_found [OF hu, of ?row] .
    then show ?thesis
      by (simp add: u fm)
  qed
qed

lemma first_match_first:
  "i < first_match name rows \<Longrightarrow> label_cell (rows ! i) \<noteq> PStr name"
  unfolding first_match_def
  using nth_mem [of i "takeWhile (\<lambda>r. label_cell r \<noteq> PStr name) rows"]
  by (auto simp: takeWhile_nth dest: set_takeWhileD)

lemma count_labels_upsert:
  "count_list (map label_cell (upsert_summary name (PStr name # cells) rows)) l
     = (if l = PStr name then max 1 (count_list (map label_cell rows) l)
        else count_list (map label_cell rows) l)"
proof (cases "has_label name rows")
  case True
  then have "count_list (map label_cell rows) (PStr name) \<noteq> 0"
    by (simp add: has_label_def count_list_0_iff)
  then show ?thesis
    by (simp add: labels_upsert_found [OF True])
next
  case False
  then have "count_list (map label_cell rows) (PStr name) = 0"
    by (simp add: has_label_def count_list_0_iff)
  then show ?thesis
    by (simp add: upsert_missing [OF False] label_cell_def)
qed

lemma distinct_labels_upsert:
  assumes "distinct (map label_cell rows)"
  shows "distinct (map label_cell (upsert_summary name (PStr name # cells) rows))"
proof (cases "has_label name rows")
  case True
  then show ?thesis using assms by (simp add: labels_upsert_found)
next
  case False
  then show ?thesis using assms
    by (simp add: upsert_missing has_label_def label_cell_def)
qed

lemma update_monthly_summary_idem:
  "update_monthly_summary now (update_monthly_summary now st) = update_monthly_summary now st"
proof -
  let ?agg = "monthly_aggregate (strftime_Ym now) (worksheet st)"
  from row_data_Some [OF keys_monthly_aggregate] obtain cells
    where r: "row_data (strftime_BY now) ?agg (total_of ?agg) = Some (PStr (strftime_BY now) # cells)"
    by blast
  have 1: "update_monthly_summary now st
      = st\<lparr>summary_worksheet :=
             upsert_summary (strftime_BY now) (PStr (strftime_BY now) # cells) (summary_worksheet st)\<rparr>"
    by (simp add: update_monthly_summary_def Let_def r)
  have 2: "update_monthly_summary now
       (st\<lparr>summary_worksheet :=
             upsert_summary (strftime_BY now) (PStr (strftime_BY now) # cells) (summary_worksheet st)\<rparr>)
      = st\<lparr>summary_worksheet :=
             upsert_summary (strftime_BY now) (PStr (strftime_BY now) # cells)
               (upsert_summary (strftime_BY now) (PStr (strftime_BY now) # cells) (summary_worksheet st))\<rparr>"
    by (simp add: update_monthly_summary_def Let_def r)
  show ?thesis
    by (simp only: 1 2 upsert_idem)
qed

text \<open>
  C1, as the code has it. The row written for a period starts with the period label. If a
  summary row carries that label, the first such row is overwritten in place, cell by cell
  (cells to the right of the written ones stay), and no row is added; otherwise the new row
  is appended below the others. The number of rows with the target label becomes 1 when it
  was 0 and is unchanged otherwise, and no other label gains or loses a row; so rows with
  pairwise distinct labels stay so. A second upsert of the same row changes nothing, and
  neither does a second run of \<^verbatim>\<open>update_monthly_summary\<close> on an unchanged ledger. The row
  computed from any ledger has this form.
\<close>

theorem upsert_summary_spec:
  "(has_label name rows \<longrightarrow>
      upsert_summary name (PStr name # cells) rows
        = rows[first_match name rows :=
                 (PStr name # cells) @ drop (Suc (length cells)) (rows ! first_match name rows)]
      \<and> length (upsert_summary name (PStr name # cells) rows) = length rows
      \<and> label_cell (rows ! first_match name rows) = PStr name
      \<and> (\<forall>i < first_match name rows. label_cell (rows ! i) \<noteq> PStr name))
   \<and> (\<not> has_label name rows \<longrightarrow>
        upsert_summary name (PStr name # cells) rows = rows @ [PStr name # cells])
   \<and> (\<forall>l. count_list (map label_cell (upsert_summary name (PStr name # cells) rows)) l
          = (if l = PStr name then max 1 (count_list (map label_cell rows) l)
             else count_list (map label_cell rows) l))
   \<and> (distinct (map label_cell rows) \<longrightarrow>
        distinct (map label_cell (upsert_summary name (PStr name # cells) rows)))
   \<and> upsert_summary name (PStr name # cells) (upsert_summary name (PStr name # cells) rows)
       = upsert_summary name (PStr name # cells) rows
   \<and> (\<exists>computed. row_data name (monthly_aggregate m records)
                      (total_of (monthly_aggregate m records)) = Some (PStr name # computed))
   \<and> update_monthly_summary now (update_monthly_summary now st) = update_monthly_summary now st"
proof (intro conjI impI allI)
  assume h: "has_label name rows"
  show "upsert_summary name (PStr name # cells) rows
        = rows[first_match name rows :=
                 (PStr name # cells) @ drop (Suc (length cells)) (rows ! first_match name rows)]"
    using upsert_found [OF h, of "PStr name # cells"] by simp
  then show "length (upsert_summary name (PStr name # cells) rows) = length rows"
    by simp
  show "label_cell (rows ! first_match name rows) = PStr name"
    using h by (rule first_match_label)
next
  fix i assume "i < first_match name rows"
  then show "label_cell (rows ! i) \<noteq> PStr name" by (rule first_match_first)
next
  assume "\<not> has_label name rows"
  then show "upsert_summary name (PStr name # cells) rows = rows @ [PStr name # cells]"
    by (rule upsert_missing)
next
  fix l
  show "count_list (map label_cell (upsert_summary name (PStr name # cells) rows)) l
          = (if l = PStr name then max 1 (count_list (map label_cell rows) l)
             else count_list (map label_cell rows) l)"
    by (rule count_labels_upsert)
next
  assume "distinct (map label_cell rows)"
  then show "distinct (map label_cell (upsert_summary name (PStr name # cells) rows))"
    by (rule distinct_labels_upsert)
next
  show "upsert_summary name (PStr name # cells) (upsert_summary name (PStr name # cells) rows)
       = upsert_summary name (PStr name # cells) rows"
    by (rule upsert_idem)
next
  show "\<exists>computed. row_data name (monthly_aggregate m records)
                      (total_of (monthly_aggregate m records)) = Some (PStr name # computed)"
    by (rule row_data_Some) (rule keys_monthly_aggregate)
next
  show "update_monthly_summary now (update_monthly_summary now st) = update_monthly_summary now st"
    by (rule update_monthly_summary_idem)
qed

lemmas upsert_eval = upsert_summary_def append_row_def update_cell_def put_cell_def
  SUMMARY_HEADER_ROW_def label_cell_def has_label_def first_match_def

theorem upsert_summary_spec_witness:
  "has_label ''August 2025'' [[PStr ''July 2025'', PInt 1], [PStr ''August 2025'', PInt 5, PInt 6]]
   \<and> upsert_summary ''August 2025'' [PStr ''August 2025'', PInt 7]
        [[PStr ''July 2025'', PInt 1], [PStr ''August 2025'', PInt 5, PInt 6]]
      = [[PStr ''July 2025'', PInt 1], [PStr ''August 2025'', PInt 7, PInt 6]]
   \<and> \<not> has_label ''August 2025'' [[PStr ''July 2025'', PInt 1]]
   \<and> upsert_summary ''August 2025'' [PStr ''August 2025'', PInt 7] [[PStr ''July 2025'', PInt 1]]
      = [[PStr ''July 2025'', PInt 1], [PStr ''August 2025'', PInt 7]]
   \<and> distinct (map label_cell [[PStr ''July 2025'', PInt 1], [PStr ''August 2025'', PInt 5, PInt 6]])
   \<and> distinct (map label_cell (upsert_summary ''August 2025'' [PStr ''August 2025'', PInt 7]
        [[PStr ''July 2025'', PInt 1], [PStr ''August 2025'', PInt 5, PInt 6]]))"
proof -
  have a: "has_label ''August 2025'' [[PStr ''July 2025'', PInt 1], [PStr ''August 2025'', PInt 5, PInt 6]]"
    by (simp add: has_label_def label_cell_def)
  have b: "\<not> has_label ''August 2025'' [[PStr ''July 2025'', PInt 1]]"
    by (simp add: has_label_def label_cell_def)
  have c: "distinct (map label_cell [[PStr ''July 2025'', PInt 1], [PStr ''August 2025'', PInt 5, PInt 6]])"
    by (simp add: label_cell_def)
  have f: "first_match ''August 2025'' [[PStr ''July 2025'', PInt 1], [PStr ''August 2025'', PInt 5, PInt 6]] = 1"
    by (simp add: first_match_def label_cell_def)
  note s1 = upsert_summary_spec [of "''August 2025''"
      "[[PStr ''July 2025'', PInt 1], [PStr ''August 2025'', PInt 5, PInt 6]]" "[PInt 7]"]
  note s2 = upsert_summary_spec [of "''August 2025''" "[[PStr ''July 2025'', PInt 1]]" "[PInt 7]"]
  from s1 a have u1: "upsert_summary ''August 2025'' [PStr ''August 2025'', PInt 7]
        [[PStr ''July 2025'', PInt 1], [PStr ''August 2025'', PInt 5, PInt 6]]
      = [[PStr ''July 2025'', PInt 1], [PStr ''August 2025'', PInt 7, PInt 6]]"
    by (simp add: f)
  from s2 b have u2: "upsert_summary ''August 2025'' [PStr ''August 2025'', PInt 7] [[PStr ''July 2025'', PInt 1]]
      = [[PStr ''July 2025'', PInt 1], [PStr ''August 2025'', PInt 7]]"
    by simp
  from s1 c have d: "distinct (map label_cell (upsert_summary ''August 2025'' [PStr ''August 2025'', PInt 7]
        [[PStr ''July 2025'', PInt 1], [PStr ''August 2025'', PInt 5, PInt 6]]))"
    by blast
  from a b c u1 u2 d show ?thesis by blast
qed

text \<open>
  C1 as stated fails when the sheet already holds the label twice: the first row is
  overwritten, the second stays, and two rows carry the label after the upsert.
\<close>

theorem upsert_summary_keeps_duplicates:
  "count_list (map label_cell (upsert_summary ''August 2025'' [PStr ''August 2025'', PInt 7]
       [[PStr ''August 2025'', PInt 1], [PStr ''August 2025'', PInt 2]])) (PStr ''August 2025'') = 2"
  by (simp add: upsert_eval)

section \<open>Properties of the period filter\<close>












section \<open>Properties of the monthly view\<close>







section \<open>Tokens of digits and underscores\<close>







end
